theory Spec2Isabelle
  imports Main "HOL-Library.Sublist"
begin

section \<open>Python string operations used by the pipeline\<close>

text \<open>
  A Python \<^verbatim>\<open>str\<close> is modelled as a \<^typ>\<open>string\<close>: one \<^typ>\<open>char\<close> per code
  point, restricted to the code points 0..255. \<^verbatim>\<open>len\<close> is \<^const>\<open>length\<close>.

  \<^verbatim>\<open>str.isspace\<close> on one character, which is also what \<^verbatim>\<open>\s\<close> matches in a
  \<^verbatim>\<open>str\<close> pattern of \<^verbatim>\<open>re\<close>: in the range 0..255 these are TAB, LF, VT, FF, CR,
  the separators 0x1C..0x1F, the space, NEL (0x85) and the no-break space (0xA0).
\<close>

definition isspace :: "char \<Rightarrow> bool" where
  "isspace c \<longleftrightarrow> c \<in> {CHR 0x09, CHR 0x0A, CHR 0x0B, CHR 0x0C, CHR 0x0D,
                       CHR 0x1C, CHR 0x1D, CHR 0x1E, CHR 0x1F, CHR 0x20, CHR 0x85, CHR 0xA0}"

text \<open>The character class \<^verbatim>\<open>[.!?]\<close> of the sentence pattern.\<close>

definition is_terminator :: "char \<Rightarrow> bool" where
  "is_terminator c \<longleftrightarrow> c = CHR ''.'' \<or> c = CHR ''!'' \<or> c = CHR ''?''"

text \<open>\<^verbatim>\<open>s.strip()\<close>: leading and trailing whitespace removed.\<close>

definition strip :: "string \<Rightarrow> string" where
  "strip s = rev (dropWhile isspace (rev (dropWhile isspace s)))"

text \<open>
  \<^verbatim>\<open>re.split(r'(?<=[.!?])\s+', context)\<close>. The scan keeps the piece read so far
  (\<open>piece\<close>, reversed) and whether the character just read is one of \<^verbatim>\<open>.!?\<close>
  (the lookbehind). A match starts at a whitespace character right after such a
  character and takes the whole whitespace run (\<^verbatim>\<open>\s+\<close> is greedy); the search
  resumes after the run, where the lookbehind sees a whitespace character. The
  text after the last match is the last piece, possibly empty.
\<close>

function re_split_scan :: "bool \<Rightarrow> string \<Rightarrow> string \<Rightarrow> string list" where
  "re_split_scan after_terminator piece [] = [rev piece]"
| "re_split_scan after_terminator piece (c # cs) =
     (if after_terminator \<and> isspace c
      then rev piece # re_split_scan False [] (dropWhile isspace cs)
      else re_split_scan (is_terminator c) (c # piece) cs)"
  by pat_completeness auto
termination
  by (relation "measure (\<lambda>(a, p, s). length s)")
     (auto simp: le_imp_less_Suc length_dropWhile_le)

definition re_split :: "string \<Rightarrow> string list" where
  "re_split context = re_split_scan False [] context"

text \<open>\<^verbatim>\<open>sub in s\<close> on strings: \<open>sub\<close> starts at some position of \<open>s\<close>.\<close>

fun str_contains :: "string \<Rightarrow> string \<Rightarrow> bool" where
  "str_contains sub [] \<longleftrightarrow> sub = []"
| "str_contains sub (c # cs) \<longleftrightarrow> prefix sub (c # cs) \<or> str_contains sub cs"

text \<open>
  \<^verbatim>\<open>s.replace(old, new)\<close>: the occurrences of \<open>old\<close> are found from the left,
  each search starting after the previous occurrence, and each is replaced by
  \<open>new\<close>. With an empty \<open>old\<close>, \<open>new\<close> is put before every character and at the
  end.
\<close>

function replace_scan :: "string \<Rightarrow> string \<Rightarrow> string \<Rightarrow> string" where
  "replace_scan [] old new = []"
| "replace_scan (c # cs) old new =
     (if old \<noteq> [] \<and> prefix old (c # cs)
      then new @ replace_scan (drop (length old) (c # cs)) old new
      else c # replace_scan cs old new)"
  by pat_completeness auto
termination
  by (relation "measure (\<lambda>(s, old, new). length s)") (auto simp: neq_Nil_conv)

definition str_replace :: "string \<Rightarrow> string \<Rightarrow> string \<Rightarrow> string" where
  "str_replace s old new =
     (if old = [] then new @ concat (map (\<lambda>c. c # new) s) else replace_scan s old new)"

section \<open>The highlighter\<close>

text \<open>
  The body of the inner loop of \<^verbatim>\<open>RAGPipeline.highlight_context\<close>: one sentence of a
  context, applied to the working string \<open>highlighted_answer\<close>. The test reads
  \<open>answer\<close>, the replacement is made in \<open>highlighted_answer\<close>.
\<close>

definition highlight_sentence :: "string \<Rightarrow> string \<Rightarrow> string \<Rightarrow> string" where
  "highlight_sentence answer highlighted_answer sentence =
     (let clean_sentence = strip sentence in
      if length clean_sentence > 20 \<and> str_contains clean_sentence answer
      then str_replace highlighted_answer clean_sentence (''**'' @ clean_sentence @ ''**'')
      else highlighted_answer)"

text \<open>
  \<^verbatim>\<open>RAGPipeline.highlight_context(answer, contexts)\<close>: the outer loop runs over the
  contexts, the inner loop over the sentences of one context; both thread the
  working string, which starts as the answer.
\<close>

definition highlight_context :: "string \<Rightarrow> string list \<Rightarrow> string" where
  "highlight_context answer contexts =
     foldl (\<lambda>highlighted_answer context.
              foldl (highlight_sentence answer) highlighted_answer (re_split context))
           answer contexts"

text \<open>
  A sentence boundary in the sense of the pattern: one of \<^verbatim>\<open>.!?\<close> directly
  followed by a whitespace character. Used to state how \<^const>\<open>re_split\<close> cuts.
\<close>

fun has_boundary :: "string \<Rightarrow> bool" where
  "has_boundary (c # d # cs) \<longleftrightarrow> is_terminator c \<and> isspace d \<or> has_boundary (d # cs)"
| "has_boundary cs \<longleftrightarrow> False"

section \<open>Documents, exceptions and the collaborators of the pipeline\<close>

text \<open>
  A LangChain \<^verbatim>\<open>Document\<close>: its text and its metadata dictionary (the loaders
  store the path of the file under the key \<^verbatim>\<open>source\<close>).
\<close>

record document =
  page_content :: string
  metadata :: "string \<rightharpoonup> string"

text \<open>
  The exceptions that leave the pipeline. The first four are the
  \<^verbatim>\<open>ValueError\<close>s that \<^verbatim>\<open>rag_pipeline.py\<close> raises itself, told apart by their
  message: \<^verbatim>\<open>Documents path does not exist\<close>, \<^verbatim>\<open>Vector store path does not exist\<close>,
  \<^verbatim>\<open>QA chain not initialized\<close>, \<^verbatim>\<open>Vector store not initialized\<close>. The pipeline
  has no \<^verbatim>\<open>try\<close>: every other exception comes from a call it makes and
  passes through unchanged; it is kept by the name of its class.
\<close>

datatype error =
    DocumentsPathMissing
  | VectorStorePathMissing
  | QAChainNotInitialized
  | VectorStoreNotInitialized
  | OtherException string

text \<open>
  What is at \<^verbatim>\<open>settings.vector_store_path\<close> when the path exists: something
  that is not a directory (a regular file), a directory without a readable
  index, or a directory with an index written by \<^verbatim>\<open>save_local\<close>.
\<close>

datatype 'idx persisted = NotADirectory | NoIndex | Saved 'idx

text \<open>The dictionary that \<^verbatim>\<open>RetrievalQA.invoke\<close> returns; either key may be absent.\<close>

record qa_output =
  qa_result :: "string option"
  qa_source_documents :: "document list option"

text \<open>
  The library calls and the documents location, as parameters. \<open>'idx\<close> is the
  content of a FAISS index; a call that raises returns \<open>Inl\<close> with the name of
  the exception. \<open>directory_loader\<close> takes the glob of a
  \<^verbatim>\<open>DirectoryLoader\<close> over \<^verbatim>\<open>settings.documents_path\<close>, \<open>text_loader\<close> the path of a
  \<^verbatim>\<open>TextLoader\<close>, \<open>text_splitter\<close> is the construction of the
  \<^verbatim>\<open>RecursiveCharacterTextSplitter\<close> from the settings (which raises on a chunk
  overlap larger than the chunk size) followed by its \<^verbatim>\<open>split_documents\<close>,
  \<open>faiss_from_documents\<close> is \<^verbatim>\<open>FAISS.from_documents\<close> with the embeddings of the
  pipeline on a list that is not empty, \<open>faiss_add_documents\<close> is
  \<^verbatim>\<open>FAISS.add_documents\<close> (the new content of the index; the index is unchanged
  when it raises), \<open>faiss_save_local\<close> is \<^verbatim>\<open>save_local\<close> into the directory
  (\<open>None\<close> when the index is written; otherwise the exception and what the
  directory holds after the failed write) and \<open>qa_invoke\<close> is the retrieval
  chain over an index, called with the question.
\<close>

record 'idx env =
  documents_path_exists :: bool
  directory_loader :: "string \<Rightarrow> string + document list"
  text_loader :: "string \<Rightarrow> string + document list"
  text_splitter :: "document list \<Rightarrow> string + document list"
  faiss_from_documents :: "document list \<Rightarrow> string + 'idx"
  faiss_add_documents :: "'idx \<Rightarrow> document list \<Rightarrow> string + 'idx"
  faiss_save_local :: "'idx \<Rightarrow> (string \<times> 'idx persisted) option"
  qa_invoke :: "'idx \<Rightarrow> string \<Rightarrow> string + qa_output"

text \<open>
  The state: the two attributes of \<^verbatim>\<open>RAGPipeline\<close> that change, the FAISS
  objects they refer to, and the vector store directory. \<open>vector_store\<close> and
  \<open>qa_chain\<close> hold references (\<open>None\<close> is Python's \<^verbatim>\<open>None\<close>); the chain is kept
  as the reference to the index its retriever reads, so that an index changed
  in place is seen through both. \<open>store_dir\<close> is \<open>None\<close> when the path does not
  exist.
\<close>

record 'idx pipeline =
  vector_store :: "nat option"
  qa_chain :: "nat option"
  objects :: "nat \<rightharpoonup> 'idx"
  next_ref :: nat
  store_dir :: "'idx persisted option"

text \<open>\<^verbatim>\<open>RAGPipeline.__init__\<close>: both attributes are \<^verbatim>\<open>None\<close>.\<close>

definition new_pipeline :: "'idx persisted option \<Rightarrow> 'idx pipeline" where
  "new_pipeline dir =
     \<lparr>vector_store = None, qa_chain = None, objects = Map.empty, next_ref = 0, store_dir = dir\<rparr>"

text \<open>A new FAISS object with the given content; its reference is returned.\<close>

definition new_object :: "'idx \<Rightarrow> 'idx pipeline \<Rightarrow> nat \<times> 'idx pipeline" where
  "new_object idx s =
     (next_ref s, s\<lparr>objects := (objects s)(next_ref s \<mapsto> idx), next_ref := Suc (next_ref s)\<rparr>)"

section \<open>The operations of the pipeline\<close>

text \<open>
  \<^verbatim>\<open>load_documents\<close> with the default path: the \<^verbatim>\<open>.txt\<close> files, then the
  \<^verbatim>\<open>.md\<close> files.
\<close>

definition load_documents :: "'idx env \<Rightarrow> error + document list" where
  "load_documents env =
     (if \<not> documents_path_exists env then Inl DocumentsPathMissing
      else case directory_loader env ''**/*.txt'' of
             Inl e \<Rightarrow> Inl (OtherException e)
           | Inr txt_docs \<Rightarrow>
               (case directory_loader env ''**/*.md'' of
                  Inl e \<Rightarrow> Inl (OtherException e)
                | Inr md_docs \<Rightarrow> Inr (txt_docs @ md_docs)))"

text \<open>\<^verbatim>\<open>split_documents\<close>: the splitter is built and applied.\<close>

definition split_documents :: "'idx env \<Rightarrow> document list \<Rightarrow> error + document list" where
  "split_documents env documents =
     (case text_splitter env documents of
        Inl e \<Rightarrow> Inl (OtherException e)
      | Inr chunks \<Rightarrow> Inr chunks)"

text \<open>
  \<^verbatim>\<open>create_vector_store\<close>. \<^verbatim>\<open>FAISS.from_documents\<close> sizes the index by the first
  embedding: on an empty list it raises \<^verbatim>\<open>IndexError\<close> before anything is built.
\<close>

definition create_vector_store ::
  "'idx env \<Rightarrow> document list \<Rightarrow> 'idx pipeline \<Rightarrow> (error + nat) \<times> 'idx pipeline" where
  "create_vector_store env documents s =
     (if documents = [] then (Inl (OtherException ''IndexError''), s)
      else case faiss_from_documents env documents of
             Inl e \<Rightarrow> (Inl (OtherException e), s)
           | Inr idx \<Rightarrow> (let (r, s') = new_object idx s in (Inr r, s')))"

text \<open>
  \<^verbatim>\<open>save_vector_store()\<close> with its defaults. First
  \<^verbatim>\<open>Path(path).mkdir(parents=True, exist_ok=True)\<close>: it makes the directory when
  the path is absent, and raises \<^verbatim>\<open>FileExistsError\<close> when the path is not a
  directory. Then \<^verbatim>\<open>self.vector_store.save_local\<close> writes the index; on \<^verbatim>\<open>None\<close>
  the call is an \<^verbatim>\<open>AttributeError\<close>. A reference always has its object in the
  states the operations build; that branch is there for the totality of the
  model.
\<close>

definition save_vector_store :: "'idx env \<Rightarrow> 'idx pipeline \<Rightarrow> error option \<times> 'idx pipeline" where
  "save_vector_store env s =
     (if store_dir s = Some NotADirectory then (Some (OtherException ''FileExistsError''), s)
      else
        (let s1 = (case store_dir s of None \<Rightarrow> s\<lparr>store_dir := Some NoIndex\<rparr> | Some d \<Rightarrow> s) in
         case vector_store s1 of
           None \<Rightarrow> (Some (OtherException ''AttributeError''), s1)
         | Some r \<Rightarrow>
             (case objects s1 r of
                None \<Rightarrow> (Some (OtherException ''ReferenceError''), s1)
              | Some idx \<Rightarrow>
                  (case faiss_save_local env idx of
                     None \<Rightarrow> (None, s1\<lparr>store_dir := Some (Saved idx)\<rparr>)
                   | Some (e, left) \<Rightarrow>
                       (Some (OtherException e), s1\<lparr>store_dir := Some left\<rparr>)))))"

text \<open>
  \<^verbatim>\<open>load_vector_store()\<close> with the default path. \<^verbatim>\<open>FAISS.load_local\<close> raises when
  the path does not hold an index (faiss cannot read the index file).
\<close>

definition load_vector_store :: "'idx pipeline \<Rightarrow> (error + nat) \<times> 'idx pipeline" where
  "load_vector_store s =
     (case store_dir s of
        None \<Rightarrow> (Inl VectorStorePathMissing, s)
      | Some NotADirectory \<Rightarrow> (Inl (OtherException ''RuntimeError''), s)
      | Some NoIndex \<Rightarrow> (Inl (OtherException ''RuntimeError''), s)
      | Some (Saved idx) \<Rightarrow> (let (r, s') = new_object idx s in (Inr r, s')))"

text \<open>\<^verbatim>\<open>_create_qa_chain\<close>: the retriever is taken from \<^verbatim>\<open>self.vector_store\<close>.\<close>

definition create_qa_chain :: "'idx pipeline \<Rightarrow> error option \<times> 'idx pipeline" where
  "create_qa_chain s =
     (case vector_store s of
        None \<Rightarrow> (Some (OtherException ''AttributeError''), s)
      | Some r \<Rightarrow> (None, s\<lparr>qa_chain := Some r\<rparr>))"

text \<open>
  \<^verbatim>\<open>initialize_vector_store(force_rebuild)\<close>. An exception leaves the attributes
  assigned before it as they are.
\<close>

definition initialize_vector_store ::
  "'idx env \<Rightarrow> bool \<Rightarrow> 'idx pipeline \<Rightarrow> error option \<times> 'idx pipeline" where
  "initialize_vector_store env force_rebuild s =
     (if store_dir s \<noteq> None \<and> \<not> force_rebuild then
        (case load_vector_store s of
           (Inl e, s') \<Rightarrow> (Some e, s')
         | (Inr r, s') \<Rightarrow> create_qa_chain (s'\<lparr>vector_store := Some r\<rparr>))
      else
        (case load_documents env of
           Inl e \<Rightarrow> (Some e, s)
         | Inr documents \<Rightarrow>
             (case split_documents env documents of
                Inl e \<Rightarrow> (Some e, s)
              | Inr chunks \<Rightarrow>
                  (case create_vector_store env chunks s of
                     (Inl e, s') \<Rightarrow> (Some e, s')
                   | (Inr r, s') \<Rightarrow>
                       (case save_vector_store env (s'\<lparr>vector_store := Some r\<rparr>) of
                          (Some e, s'') \<Rightarrow> (Some e, s'')
                        | (None, s'') \<Rightarrow> create_qa_chain s'')))))"

text \<open>\<^verbatim>\<open>os.path.basename\<close> (POSIX): what follows the last slash.\<close>

definition basename :: "string \<Rightarrow> string" where
  "basename p = rev (takeWhile (\<lambda>c. c \<noteq> CHR ''/'') (rev p))"

text \<open>The name that \<^verbatim>\<open>ask\<close> reports for one retrieved document.\<close>

definition source_name :: "document \<Rightarrow> string" where
  "source_name doc =
     basename (case metadata doc ''source'' of None \<Rightarrow> ''unknown'' | Some p \<Rightarrow> p)"

text \<open>
  The dictionary that \<^verbatim>\<open>ask\<close> returns. \<^verbatim>\<open>list(set(...))\<close> keeps one copy of each
  name in an order that Python does not fix; \<^const>\<open>remdups\<close> is one such order,
  and the properties below read the list only as a set and for repetitions.
\<close>

record ask_result =
  ask_answer :: string
  ask_sources :: "string list"
  ask_contexts :: "string list"
  ask_source_documents :: "document list"

definition ask :: "'idx env \<Rightarrow> 'idx pipeline \<Rightarrow> string \<Rightarrow> error + ask_result" where
  "ask env s question =
     (case qa_chain s of
        None \<Rightarrow> Inl QAChainNotInitialized
      | Some r \<Rightarrow>
          (case objects s r of
             None \<Rightarrow> Inl (OtherException ''ReferenceError'')
           | Some idx \<Rightarrow>
               (case qa_invoke env idx question of
                  Inl e \<Rightarrow> Inl (OtherException e)
                | Inr out \<Rightarrow>
                    (let source_docs = (case qa_source_documents out of None \<Rightarrow> [] | Some ds \<Rightarrow> ds)
                     in Inr \<lparr>ask_answer = (case qa_result out of None \<Rightarrow> [] | Some a \<Rightarrow> a),
                             ask_sources = remdups (map source_name source_docs),
                             ask_contexts = map page_content source_docs,
                             ask_source_documents = source_docs\<rparr>))))"

text \<open>The loop of \<^verbatim>\<open>add_documents\<close> that reads the files into \<open>new_docs\<close>.\<close>

fun load_files :: "'idx env \<Rightarrow> string list \<Rightarrow> document list \<Rightarrow> error + document list" where
  "load_files env [] new_docs = Inr new_docs"
| "load_files env (file_path # file_paths) new_docs =
     (case text_loader env file_path of
        Inl e \<Rightarrow> Inl (OtherException e)
      | Inr docs \<Rightarrow> load_files env file_paths (new_docs @ docs))"

text \<open>
  \<^verbatim>\<open>add_documents(file_paths)\<close>: all files are read, then split, then added to
  the index object in place, then the index is saved.
\<close>

definition add_documents ::
  "'idx env \<Rightarrow> string list \<Rightarrow> 'idx pipeline \<Rightarrow> error option \<times> 'idx pipeline" where
  "add_documents env file_paths s =
     (case vector_store s of
        None \<Rightarrow> (Some VectorStoreNotInitialized, s)
      | Some r \<Rightarrow>
          (case load_files env file_paths [] of
             Inl e \<Rightarrow> (Some e, s)
           | Inr new_docs \<Rightarrow>
               (case split_documents env new_docs of
                  Inl e \<Rightarrow> (Some e, s)
                | Inr chunks \<Rightarrow>
                    (case objects s r of
                       None \<Rightarrow> (Some (OtherException ''ReferenceError''), s)
                     | Some idx \<Rightarrow>
                         (case faiss_add_documents env idx chunks of
                            Inl e \<Rightarrow> (Some (OtherException e), s)
                          | Inr idx' \<Rightarrow>
                              save_vector_store env
                                (s\<lparr>objects := (objects s)(r \<mapsto> idx')\<rparr>))))))"

section \<open>The \<^verbatim>\<open>/ask\<close> endpoint\<close>

text \<open>\<^verbatim>\<open>QuestionResponse\<close> of \<^verbatim>\<open>models.py\<close>.\<close>

record question_response =
  response_answer :: string
  response_sources :: "string list"
  response_highlighted_answer :: "string option"

text \<open>The \<^verbatim>\<open>HTTPException\<close> of the handler: the status code and the exception caught.\<close>

datatype http_exception = HTTPException nat error

definition ask_question ::
  "'idx env \<Rightarrow> 'idx pipeline \<Rightarrow> string \<Rightarrow> http_exception + question_response" where
  "ask_question env s question =
     (case ask env s question of
        Inl e \<Rightarrow> Inl (HTTPException 500 e)
      | Inr result \<Rightarrow>
          (let highlighted = highlight_context (ask_answer result) (ask_contexts result)
           in Inr \<lparr>response_answer = ask_answer result,
                   response_sources = ask_sources result,
                   response_highlighted_answer =
                     (if highlighted \<noteq> ask_answer result then Some highlighted else None)\<rparr>))"

section \<open>A stub environment\<close>

text \<open>
  The scenario of the specification, used to run the model on concrete inputs:
  the documents folder holds \<^verbatim>\<open>policy.txt\<close>; a file \<^verbatim>\<open>faq.md\<close> can be read and
  no other; every document is shorter than the chunk size, so the splitter
  returns it as one chunk, and gives no chunk for an empty document; the
  content of an index is the list of its chunks; the builder raises on an empty
  list, as \<^verbatim>\<open>FAISS.from_documents\<close> does; the index is written without error;
  the chain retrieves every chunk and the synthesizer stub answers with the
  first sentence of the policy.
\<close>

definition policy_doc :: document where
  "policy_doc =
     \<lparr>page_content = ''Returns are accepted within 30 days. Refunds take 5 business days.'',
      metadata = [''source'' \<mapsto> ''documents/policy.txt'']\<rparr>"

definition faq_doc :: document where
  "faq_doc =
     \<lparr>page_content = ''Shipping is free.'', metadata = [''source'' \<mapsto> ''documents/faq.md'']\<rparr>"

definition stub_env :: "document list env" where
  "stub_env =
     \<lparr>documents_path_exists = True,
      directory_loader = (\<lambda>glob. if glob = ''**/*.txt'' then Inr [policy_doc] else Inr []),
      text_loader = (\<lambda>file_path. if file_path = ''documents/faq.md'' then Inr [faq_doc]
                                   else Inl ''FileNotFoundError''),
      text_splitter = (\<lambda>documents. Inr (filter (\<lambda>doc. page_content doc \<noteq> []) documents)),
      faiss_from_documents =
        (\<lambda>documents. if documents = [] then Inl ''IndexError'' else Inr documents),
      faiss_add_documents = (\<lambda>idx documents. Inr (idx @ documents)),
      faiss_save_local = (\<lambda>idx. None),
      qa_invoke = (\<lambda>idx question.
         Inr \<lparr>qa_result = Some ''Returns are accepted within 30 days.'',
              qa_source_documents = Some idx\<rparr>)\<rparr>"

text \<open>The pipeline once \<^const>\<open>stub_env\<close> has been initialized from an empty disk.\<close>

definition stub_ready :: "document list pipeline" where
  "stub_ready =
     \<lparr>vector_store = Some 0, qa_chain = Some 0, objects = [0 \<mapsto> [policy_doc]],
      next_ref = 1, store_dir = Some (Saved [policy_doc])\<rparr>"

text \<open>The same environment over an empty documents folder.\<close>

definition empty_folder_env :: "document list env" where
  "empty_folder_env = stub_env\<lparr>directory_loader := (\<lambda>glob. Inr [])\<rparr>"

text \<open>An empty file, and the same environment over a folder that holds only it.\<close>

definition blank_doc :: document where
  "blank_doc = \<lparr>page_content = [], metadata = [''source'' \<mapsto> ''documents/blank.txt'']\<rparr>"


text \<open>A folder with the policy, the empty file and a Markdown file.\<close>

definition mixed_folder_env :: "document list env" where
  "mixed_folder_env =
     stub_env\<lparr>directory_loader :=
       (\<lambda>glob. if glob = ''**/*.txt'' then Inr [policy_doc, blank_doc] else Inr [faq_doc])\<rparr>"


section \<open>Facts about the string operations\<close>

lemma str_contains_iff: "str_contains sub s \<longleftrightarrow> sublist sub s"
  by (induction s) (auto simp: sublist_Cons_right)

lemma replace_scan_absent: "\<not> str_contains old s \<Longrightarrow> replace_scan s old new = s"
  by (induction s) auto

lemma replace_scan_first:
  assumes "old \<noteq> []" "\<not> str_contains old (a @ butlast old)"
  shows "replace_scan (a @ old @ b) old new = a @ new @ replace_scan b old new"
  using assms
proof (induction a)
  case Nil
  then show ?case by (cases old) auto
next
  case (Cons x a)
  have "\<not> prefix old (x # a @ old @ b)"
  proof
    assume p: "prefix old (x # a @ old @ b)"
    have "x # a @ old @ b = ((x # a) @ butlast old) @ (last old # b)"
      using Cons.prems(1) by simp
    then have q: "prefix ((x # a) @ butlast old) (x # a @ old @ b)"
      by (metis prefixI)
    have "length old \<le> length ((x # a) @ butlast old)"
      by simp
    with p q have "prefix old ((x # a) @ butlast old)"
      by (rule prefix_length_prefix)
    with Cons.prems(2) show False by simp
  qed
  moreover have "\<not> str_contains old (a @ butlast old)"
    using Cons.prems(2) by simp
  ultimately show ?case using Cons by simp
qed

lemma strip_middle:
  assumes "\<forall>c\<in>set l. isspace c" "\<forall>c\<in>set r. isspace c"
    and "m = [] \<or> \<not> isspace (hd m) \<and> \<not> isspace (last m)"
  shows "strip (l @ m @ r) = m"
proof (cases m)
  case Nil
  have e: "dropWhile isspace (l @ r) = []"
    using assms(1,2) by auto
  show ?thesis
    by (simp only: strip_def Nil append_Nil e rev.simps dropWhile.simps)
next
  case (Cons c m')
  with assms have h: "\<not> isspace c" and t: "\<not> isspace (last m)"
    by auto
  have "dropWhile isspace (l @ m @ r) = m @ r"
    using assms(1) h Cons by (simp add: dropWhile_append2)
  moreover have "dropWhile isspace (rev r @ rev m) = rev m"
  proof -
    have "dropWhile isspace (rev r @ rev m) = dropWhile isspace (rev m)"
      by (rule dropWhile_append2) (use assms(2) in simp)
    also have "\<dots> = rev m"
      using t Cons by (simp only: dropWhile_eq_self_iff hd_rev) simp
    finally show ?thesis .
  qed
  ultimately show ?thesis
    by (simp add: strip_def)
qed

lemma re_split_scan_no_boundary:
  "\<not> has_boundary s \<Longrightarrow> \<not> (t \<and> s \<noteq> [] \<and> isspace (hd s)) \<Longrightarrow>
     re_split_scan t piece s = [rev piece @ s]"
proof (induction s arbitrary: t piece)
  case Nil
  then show ?case by simp
next
  case (Cons c s)
  then show ?case by (cases s) auto
qed

lemma re_split_scan_first_boundary:
  assumes "\<not> has_boundary (u @ [p])" "is_terminator p" "ws \<noteq> []" "\<forall>c\<in>set ws. isspace c"
    and "rest = [] \<or> \<not> isspace (hd rest)"
    and "\<not> (t \<and> isspace (hd (u @ [p])))"
  shows "re_split_scan t piece (u @ p # ws @ rest) = (rev piece @ u @ [p]) # re_split_scan False [] rest"
  using assms(1,6)
proof (induction u arbitrary: t piece)
  case Nil
  obtain w ws' where ws: "ws = w # ws'" using assms(3) by (cases ws) auto
  have "dropWhile isspace (ws' @ rest) = rest"
    using assms(4,5) ws by (cases rest) (auto simp: dropWhile_append2)
  then show ?case using Nil assms(2,4) ws by simp
next
  case (Cons c u)
  then show ?case by (cases u) auto
qed

lemma re_split_no_boundary: "\<not> has_boundary s \<Longrightarrow> re_split s = [s]"
  by (simp add: re_split_def re_split_scan_no_boundary)

lemma re_split_first_boundary:
  assumes "\<not> has_boundary (u @ [p])" "is_terminator p" "ws \<noteq> []" "\<forall>c\<in>set ws. isspace c"
    and "rest = [] \<or> \<not> isspace (hd rest)"
  shows "re_split (u @ p # ws @ rest) = (u @ [p]) # re_split rest"
  using re_split_scan_first_boundary[OF assms, of False "[]"] by (simp add: re_split_def)

lemma highlight_context_flat:
  "highlight_context answer contexts =
     foldl (highlight_sentence answer) answer (concat (map re_split contexts))"
proof -
  have "foldl (\<lambda>h context. foldl (highlight_sentence answer) h (re_split context)) h0 contexts =
        foldl (highlight_sentence answer) h0 (concat (map re_split contexts))" for h0
    by (induction contexts arbitrary: h0) simp_all
  then show ?thesis by (simp add: highlight_context_def)
qed

section \<open>Facts about the loop body and the two paths of initialization\<close>

lemma highlight_sentence_unchanged:
  "length (strip sentence) \<le> 20 \<or> \<not> sublist (strip sentence) answer \<Longrightarrow>
     highlight_sentence answer h sentence = h"
  by (auto simp: highlight_sentence_def Let_def str_contains_iff)

lemma highlight_sentence_replaces:
  "20 < length (strip sentence) \<Longrightarrow> sublist (strip sentence) answer \<Longrightarrow>
     highlight_sentence answer h sentence =
       str_replace h (strip sentence) (''**'' @ strip sentence @ ''**'')"
  by (simp add: highlight_sentence_def Let_def str_contains_iff)

lemma str_replace_absent: "\<not> sublist old h \<Longrightarrow> str_replace h old new = h"
  by (auto simp: str_replace_def replace_scan_absent str_contains_iff)

lemma str_replace_first:
  "old \<noteq> [] \<Longrightarrow> \<not> sublist old (a @ butlast old) \<Longrightarrow>
     str_replace (a @ old @ b) old new = a @ new @ str_replace b old new"
  by (simp add: str_replace_def replace_scan_first str_contains_iff)

lemma highlight_sentence_absent_in_working:
  "\<not> sublist (strip sentence) h \<Longrightarrow> highlight_sentence answer h sentence = h"
  by (simp add: highlight_sentence_def Let_def str_replace_absent)

lemma first_occurrence:
  "old \<noteq> [] \<Longrightarrow> sublist old h \<Longrightarrow>
     \<exists>a b. h = a @ old @ b \<and> \<not> sublist old (a @ butlast old)"
proof (induction h)
  case Nil
  then show ?case by simp
next
  case (Cons c cs)
  show ?case
  proof (cases "prefix old (c # cs)")
    case True
    then obtain b where "c # cs = [] @ old @ b"
      by (auto simp: prefix_def)
    moreover have "\<not> sublist old ([] @ butlast old)"
      using Cons.prems(1) by (cases old) (auto dest!: sublist_length_le)
    ultimately show ?thesis by blast
  next
    case False
    with Cons.prems have "sublist old cs"
      by (simp add: sublist_Cons_right)
    with Cons obtain a b where ab: "cs = a @ old @ b" "\<not> sublist old (a @ butlast old)"
      by blast
    have "\<not> prefix old (c # a @ butlast old)"
    proof
      assume "prefix old (c # a @ butlast old)"
      moreover have "prefix (c # a @ butlast old) (c # cs)"
        using ab(1) Cons.prems(1) by (metis Cons_prefix_Cons append_butlast_last_id append.assoc prefixI)
      ultimately show False
        using False by (meson prefix_order.trans)
    qed
    with ab(2) have "\<not> sublist old ((c # a) @ butlast old)"
      by (simp add: sublist_Cons_right)
    moreover have "c # cs = (c # a) @ old @ b"
      using ab(1) by simp
    ultimately show ?thesis by blast
  qed
qed

lemma str_replace_wraps_one:
  assumes "old \<noteq> []" "sublist old h"
  shows "sublist new (str_replace h old new)"
proof -
  obtain a b where "h = a @ old @ b" "\<not> sublist old (a @ butlast old)"
    using first_occurrence [OF assms] by blast
  then have "str_replace h old new = a @ new @ str_replace b old new"
    using assms(1) by (simp add: str_replace_first)
  then show ?thesis
    by (simp add: sublist_appendI)
qed

lemma load_files_failure:
  "file_path \<in> set file_paths \<Longrightarrow> text_loader env file_path = Inl e \<Longrightarrow>
     \<exists>e'. load_files env file_paths new_docs = Inl e'"
  by (induction file_paths arbitrary: new_docs) (auto split: sum.splits)

lemma initialize_load_path:
  assumes "store_dir s = Some (Saved idx)" "\<not> force_rebuild"
  shows "initialize_vector_store env force_rebuild s =
           (None, s\<lparr>objects := (objects s)(next_ref s \<mapsto> idx), next_ref := Suc (next_ref s),
                    vector_store := Some (next_ref s), qa_chain := Some (next_ref s)\<rparr>)"
  using assms
  by (simp add: initialize_vector_store_def load_vector_store_def new_object_def
      create_qa_chain_def)

lemma initialize_load_raises:
  assumes "store_dir s = Some NoIndex \<or> store_dir s = Some NotADirectory" "\<not> force_rebuild"
  shows "initialize_vector_store env force_rebuild s = (Some (OtherException ''RuntimeError''), s)"
  using assms
  by (auto simp: initialize_vector_store_def load_vector_store_def)

lemma initialize_build_path:
  assumes "store_dir s = None \<or> force_rebuild"
    and "load_documents env = Inr documents"
    and "text_splitter env documents = Inr chunks" "chunks \<noteq> []"
    and "faiss_from_documents env chunks = Inr idx"
    and "store_dir s \<noteq> Some NotADirectory" "faiss_save_local env idx = None"
  shows "initialize_vector_store env force_rebuild s =
           (None, s\<lparr>objects := (objects s)(next_ref s \<mapsto> idx), next_ref := Suc (next_ref s),
                    vector_store := Some (next_ref s), store_dir := Some (Saved idx),
                    qa_chain := Some (next_ref s)\<rparr>)"
  using assms
  by (auto simp: initialize_vector_store_def split_documents_def create_vector_store_def
      new_object_def save_vector_store_def create_qa_chain_def Let_def split: option.splits)


section \<open>Claims about the highlighter\<close>

text \<open>
  Claim C8. With no contexts the highlighter returns the answer unchanged:
  \<open>highlight(answer, []) = answer\<close>.
\<close>

theorem highlight_context_no_contexts: "highlight_context answer [] = answer"
  by (simp add: highlight_context_def)

text \<open>
  Claim C4, as the code has it. The highlighter runs the loop body over the
  pieces of every context in order. A context without a boundary is one piece;
  otherwise the first piece ends with the first of \<^verbatim>\<open>.!?\<close> that is followed by
  whitespace, that whitespace run is dropped and the rest is split in the same
  way. Each piece is stripped of the whitespace around it. A stripped piece of
  at most 20 characters, or one that is not a substring of the answer, leaves
  the working string as it is. A longer one that occurs in the answer is
  replaced in the working string, which is the answer as the pieces before it
  have changed it: the string up to the first occurrence there is kept, that
  occurrence is put between \<^verbatim>\<open>**\<close> markers, and the rest is treated in the
  same way, so that the occurrences found from the left without overlap are
  wrapped, at least one when the working string has one, and all those of the
  answer for the first piece. The claim as stated, that every occurrence in
  the answer ends up wrapped, fails when an earlier replacement has broken the
  occurrence: see the counterexample.
\<close>

theorem highlight_context_wraps_sentences:
  "highlight_context answer contexts =
     foldl (highlight_sentence answer) answer (concat (map re_split contexts)) \<and>
   (\<not> has_boundary context \<longrightarrow> re_split context = [context]) \<and>
   (\<not> has_boundary (u @ [p]) \<and> is_terminator p \<and> ws \<noteq> [] \<and> (\<forall>c\<in>set ws. isspace c) \<and>
    (rest = [] \<or> \<not> isspace (hd rest)) \<longrightarrow>
      re_split (u @ p # ws @ rest) = (u @ [p]) # re_split rest) \<and>
   ((\<forall>c\<in>set l. isspace c) \<and> (\<forall>c\<in>set r. isspace c) \<and>
    (m = [] \<or> \<not> isspace (hd m) \<and> \<not> isspace (last m)) \<longrightarrow>
      strip (l @ m @ r) = m) \<and>
   (length (strip sentence) \<le> 20 \<or> \<not> sublist (strip sentence) answer \<longrightarrow>
      highlight_sentence answer h sentence = h) \<and>
   (20 < length (strip sentence) \<and> sublist (strip sentence) answer \<longrightarrow>
      highlight_sentence answer h sentence =
        str_replace h (strip sentence) (''**'' @ strip sentence @ ''**'')) \<and>
   (\<not> sublist old h \<longrightarrow> str_replace h old new = h) \<and>
   (old \<noteq> [] \<and> \<not> sublist old (a @ butlast old) \<longrightarrow>
      str_replace (a @ old @ b) old new = a @ new @ str_replace b old new) \<and>
   (20 < length (strip sentence) \<and> sublist (strip sentence) answer \<and>
    sublist (strip sentence) h \<longrightarrow>
      sublist (''**'' @ strip sentence @ ''**'') (highlight_sentence answer h sentence)) \<and>
   (\<not> has_boundary x \<and> strip x = x \<and> 20 < length x \<and> \<not> sublist x (y @ butlast x) \<longrightarrow>
      highlight_context (y @ x @ z) [x] =
        y @ (''**'' @ x @ ''**'') @ str_replace z x (''**'' @ x @ ''**''))"
proof (intro conjI impI)
  show "highlight_context answer contexts =
     foldl (highlight_sentence answer) answer (concat (map re_split contexts))"
    by (rule highlight_context_flat)
next
  assume "\<not> has_boundary context"
  then show "re_split context = [context]"
    by (rule re_split_no_boundary)
next
  assume "\<not> has_boundary (u @ [p]) \<and> is_terminator p \<and> ws \<noteq> [] \<and> (\<forall>c\<in>set ws. isspace c) \<and>
    (rest = [] \<or> \<not> isspace (hd rest))"
  then show "re_split (u @ p # ws @ rest) = (u @ [p]) # re_split rest"
    by (intro re_split_first_boundary) blast+
next
  assume "(\<forall>c\<in>set l. isspace c) \<and> (\<forall>c\<in>set r. isspace c) \<and>
    (m = [] \<or> \<not> isspace (hd m) \<and> \<not> isspace (last m))"
  then show "strip (l @ m @ r) = m"
    by (intro strip_middle) blast+
next
  assume "length (strip sentence) \<le> 20 \<or> \<not> sublist (strip sentence) answer"
  then show "highlight_sentence answer h sentence = h"
    by (rule highlight_sentence_unchanged)
next
  assume "20 < length (strip sentence) \<and> sublist (strip sentence) answer"
  then show "highlight_sentence answer h sentence =
        str_replace h (strip sentence) (''**'' @ strip sentence @ ''**'')"
    by (simp add: highlight_sentence_replaces)
next
  assume "\<not> sublist old h"
  then show "str_replace h old new = h"
    by (rule str_replace_absent)
next
  assume "old \<noteq> [] \<and> \<not> sublist old (a @ butlast old)"
  then show "str_replace (a @ old @ b) old new = a @ new @ str_replace b old new"
    by (simp add: str_replace_first)
next
  assume q: "20 < length (strip sentence) \<and> sublist (strip sentence) answer \<and>
    sublist (strip sentence) h"
  then have "strip sentence \<noteq> []"
    by auto
  with q show "sublist (''**'' @ strip sentence @ ''**'') (highlight_sentence answer h sentence)"
    by (simp add: highlight_sentence_replaces str_replace_wraps_one)
next
  assume q: "\<not> has_boundary x \<and> strip x = x \<and> 20 < length x \<and> \<not> sublist x (y @ butlast x)"
  then have n: "x \<noteq> []"
    by auto
  have o: "sublist x (y @ x @ z)"
    by (rule sublist_appendI)
  from q have "highlight_context (y @ x @ z) [x] = highlight_sentence (y @ x @ z) (y @ x @ z) x"
    by (simp add: highlight_context_def re_split_no_boundary)
  also from q o have "\<dots> = str_replace (y @ x @ z) x (''**'' @ x @ ''**'')"
    by (simp add: highlight_sentence_replaces)
  also from q n have "\<dots> = y @ (''**'' @ x @ ''**'') @ str_replace z x (''**'' @ x @ ''**'')"
    by (simp add: str_replace_first)
  finally show "highlight_context (y @ x @ z) [x] =
      y @ (''**'' @ x @ ''**'') @ str_replace z x (''**'' @ x @ ''**'')" .
qed

theorem highlight_context_wraps_sentences_witness:
  "re_split ''Returns are accepted within 30 days. Refunds take 5 business days.'' =
     [''Returns are accepted within 30 days.'', ''Refunds take 5 business days.''] \<and>
   strip ''  Refunds take 5 business days. '' = ''Refunds take 5 business days.'' \<and>
   highlight_sentence ''Returns are accepted within 30 days.''
     ''Returns are accepted within 30 days.'' ''Refunds take 5 business days.'' =
     ''Returns are accepted within 30 days.'' \<and>
   highlight_sentence ''Returns are accepted within 30 days.''
     ''Returns are accepted within 30 days.'' ''Returns are accepted within 30 days.'' =
     ''**Returns are accepted within 30 days.**'' \<and>
   highlight_context ''Returns are accepted within 30 days.''
     [''Returns are accepted within 30 days. Refunds take 5 business days.''] =
     ''**Returns are accepted within 30 days.**'' \<and>
   sublist ''**Returns are accepted within 30 days.**''
     (highlight_sentence ''Returns are accepted within 30 days.''
        ''Returns are accepted within 30 days.'' ''Returns are accepted within 30 days.'') \<and>
   highlight_context ''Policy: Returns are accepted within 30 days. Thanks.''
     [''Returns are accepted within 30 days.''] =
     ''Policy: **Returns are accepted within 30 days.** Thanks.''"
proof -
  let ?A = "''Returns are accepted within 30 days.''"
  let ?U = "''Returns are accepted within 30 days''"
  let ?R = "''Refunds take 5 business days.''"
  let ?C = "''Returns are accepted within 30 days. Refunds take 5 business days.''"
  note ev = isspace_def is_terminator_def
  have cA: "str_contains ?A ?A" and cR: "\<not> str_contains ?R ?A"
    by simp_all
  have sA: "strip ?A = ?A" and sR: "strip ?R = ?R"
    by (simp_all add: strip_def ev)
  have nR: "\<not> has_boundary ?R"
    by (simp add: ev)
  have nU: "\<not> has_boundary (?U @ [CHR ''.''])"
    by (simp add: ev)
  have sp: "\<forall>c\<in>set '' ''. isspace c" "\<forall>c\<in>set ''  ''. isspace c"
    by (simp_all add: ev)
  have ends: "\<not> isspace (hd ?R)" "\<not> isspace (last ?R)"
    by (simp_all add: ev)
  note I = highlight_context_wraps_sentences
    [of ?A "[?C]" ?R ?U "CHR ''.''" "'' ''" ?R "''  ''" "'' ''" ?R ?R ?A ?A
      "''**'' @ ?A @ ''**''" "[]" "[]" ?A "''Policy: ''" "'' Thanks.''"]
  note J = highlight_context_wraps_sentences
    [of ?A "[?C]" ?R ?U "CHR ''.''" "'' ''" ?R "''  ''" "'' ''" ?R ?A ?A ?R
      "''**'' @ ?A @ ''**''" "[]" "[]" ?A "''Policy: ''" "'' Thanks.''"]
  note I1 = I [THEN conjunct1]
  note I2 = I [THEN conjunct2, THEN conjunct1]
  note I3 = I [THEN conjunct2, THEN conjunct2, THEN conjunct1]
  note I4 = I [THEN conjunct2, THEN conjunct2, THEN conjunct2, THEN conjunct1]
  note I5 = I [THEN conjunct2, THEN conjunct2, THEN conjunct2, THEN conjunct2, THEN conjunct1]
  note I8 = I [THEN conjunct2, THEN conjunct2, THEN conjunct2, THEN conjunct2, THEN conjunct2,
    THEN conjunct2, THEN conjunct2, THEN conjunct1]
  note J9 = J [THEN conjunct2, THEN conjunct2, THEN conjunct2, THEN conjunct2, THEN conjunct2,
    THEN conjunct2, THEN conjunct2, THEN conjunct2, THEN conjunct1]
  note I10 = I [THEN conjunct2, THEN conjunct2, THEN conjunct2, THEN conjunct2, THEN conjunct2,
    THEN conjunct2, THEN conjunct2, THEN conjunct2, THEN conjunct2]
  note J6 = J [THEN conjunct2, THEN conjunct2, THEN conjunct2, THEN conjunct2, THEN conjunct2,
    THEN conjunct1]
  note J7 = J [THEN conjunct2, THEN conjunct2, THEN conjunct2, THEN conjunct2, THEN conjunct2,
    THEN conjunct2, THEN conjunct1]
  have r2: "re_split ?R = [?R]"
    by (rule mp [OF I2 nR])
  have p3: "\<not> has_boundary (?U @ [CHR ''.'']) \<and> is_terminator (CHR ''.'') \<and> '' '' \<noteq> [] \<and>
      (\<forall>c\<in>set '' ''. isspace c) \<and> (?R = [] \<or> \<not> isspace (hd ?R))"
    using nU sp(1) ends(1) by (simp add: is_terminator_def)
  have "re_split (?U @ CHR ''.'' # '' '' @ ?R) = (?U @ [CHR ''.'']) # re_split ?R"
    by (rule mp [OF I3 p3])
  with r2 have r1: "re_split ?C = [?A, ?R]"
    by simp
  have p4: "(\<forall>c\<in>set ''  ''. isspace c) \<and> (\<forall>c\<in>set '' ''. isspace c) \<and>
      (?R = [] \<or> \<not> isspace (hd ?R) \<and> \<not> isspace (last ?R))"
    using sp ends by simp
  have "strip (''  '' @ ?R @ '' '') = ?R"
    by (rule mp [OF I4 p4])
  then have st: "strip ''  Refunds take 5 business days. '' = ?R"
    by simp
  have p5: "length (strip ?R) \<le> 20 \<or> \<not> sublist (strip ?R) ?A"
    using cR unfolding sR str_contains_iff by (rule disjI2)
  have h2: "highlight_sentence ?A ?A ?R = ?A"
    by (rule mp [OF I5 p5])
  have p8: "?A \<noteq> [] \<and> \<not> sublist ?A ([] @ butlast ?A)"
    unfolding str_contains_iff [symmetric] by simp
  have "str_replace ([] @ ?A @ []) ?A (''**'' @ ?A @ ''**'') =
      [] @ (''**'' @ ?A @ ''**'') @ str_replace [] ?A (''**'' @ ?A @ ''**'')"
    by (rule mp [OF I8 p8])
  then have rp: "str_replace ?A ?A (''**'' @ ?A @ ''**'') = ''**Returns are accepted within 30 days.**''"
    by (simp add: str_replace_def)
  have p6: "20 < length (strip ?A) \<and> sublist (strip ?A) ?A"
    using cA by (simp add: sA str_contains_iff)
  have "highlight_sentence ?A ?A ?A = str_replace ?A (strip ?A) (''**'' @ strip ?A @ ''**'')"
    by (rule mp [OF J6 p6])
  with rp have h1: "highlight_sentence ?A ?A ?A = ''**Returns are accepted within 30 days.**''"
    by (simp only: sA)
  have p7: "\<not> sublist ?R ?A"
    using cR unfolding str_contains_iff .
  have rq: "str_replace ?A ?R (''**'' @ ?A @ ''**'') = ?A"
    by (rule mp [OF J7 p7])
  have "highlight_context ?A [?C] =
      foldl (highlight_sentence ?A) ?A (concat (map re_split [?C]))"
    by (rule I1)
  also have "\<dots> = highlight_sentence ?A (highlight_sentence ?A ?A ?A) ?R"
    by (simp add: r1)
  also have "\<dots> = highlight_sentence ?A ''**Returns are accepted within 30 days.**'' ?R"
    by (simp only: h1)
  also have "\<dots> = ''**Returns are accepted within 30 days.**''"
    using cR by (simp only: highlight_sentence_def sR Let_def simp_thms if_False)
  finally have hc: "highlight_context ?A [?C] = ''**Returns are accepted within 30 days.**''" .
  have p9: "20 < length (strip ?A) \<and> sublist (strip ?A) ?A \<and> sublist (strip ?A) ?A"
    using p6 by simp
  have "sublist (''**'' @ strip ?A @ ''**'') (highlight_sentence ?A ?A ?A)"
    by (rule mp [OF J9 p9])
  then have w1: "sublist ''**Returns are accepted within 30 days.**''
      (highlight_sentence ?A ?A ?A)"
    by (simp only: sA append.simps)
  have nA: "\<not> has_boundary ?A"
    by (simp add: ev)
  have "\<not> str_contains ?A (''Policy: '' @ butlast ?A)"
    by simp
  then have oA: "\<not> sublist ?A (''Policy: '' @ butlast ?A)"
    unfolding str_contains_iff .
  have p10: "\<not> has_boundary ?A \<and> strip ?A = ?A \<and> 20 < length ?A \<and>
      \<not> sublist ?A (''Policy: '' @ butlast ?A)"
    using nA sA oA by simp
  have "highlight_context (''Policy: '' @ ?A @ '' Thanks.'') [?A] =
      ''Policy: '' @ (''**'' @ ?A @ ''**'') @ str_replace '' Thanks.'' ?A (''**'' @ ?A @ ''**'')"
    by (rule mp [OF I10 p10])
  then have w2: "highlight_context ''Policy: Returns are accepted within 30 days. Thanks.'' [?A] =
      ''Policy: **Returns are accepted within 30 days.** Thanks.''"
    by (simp add: str_replace_def)
  from r1 st h2 h1 hc w1 w2 show ?thesis
    by (intro conjI)
qed

theorem highlight_broken_occurrence_counterexample:
  "20 < length (strip ''fox jumps over the lazy dog'') \<and>
   str_contains (strip ''fox jumps over the lazy dog'')
     ''the quick brown fox jumps over the lazy dog'' \<and>
   highlight_context ''the quick brown fox jumps over the lazy dog''
     [''the quick brown fox jumps'', ''fox jumps over the lazy dog''] =
     ''**the quick brown fox jumps** over the lazy dog'' \<and>
   \<not> str_contains (''**'' @ ''fox jumps over the lazy dog'' @ ''**'')
     (highlight_context ''the quick brown fox jumps over the lazy dog''
        [''the quick brown fox jumps'', ''fox jumps over the lazy dog''])"
proof -
  note ev = isspace_def is_terminator_def
  have s: "strip ''the quick brown fox jumps'' = ''the quick brown fox jumps''"
    "strip ''fox jumps over the lazy dog'' = ''fox jumps over the lazy dog''"
    by (simp_all add: strip_def ev)
  have r: "re_split ''the quick brown fox jumps'' = [''the quick brown fox jumps'']"
    "re_split ''fox jumps over the lazy dog'' = [''fox jumps over the lazy dog'']"
    by (simp_all add: re_split_def ev)
  have h: "highlight_context ''the quick brown fox jumps over the lazy dog''
     [''the quick brown fox jumps'', ''fox jumps over the lazy dog''] =
     ''**the quick brown fox jumps** over the lazy dog''"
    by (simp add: highlight_context_def r highlight_sentence_def s str_replace_def)
  show ?thesis
    unfolding h s by simp
qed

text \<open>
  Claim C10. The occurrence test of the loop body reads the original answer and
  not the working string: a piece that occurs in the working string but not in
  the answer is not wrapped, and a piece that occurs in the answer but no longer
  in the working string leaves the working string unchanged in its iteration.
\<close>

theorem highlight_tests_original_answer:
  "highlight_context answer (contexts @ [context]) =
     foldl (highlight_sentence answer) (highlight_context answer contexts) (re_split context) \<and>
   foldl (highlight_sentence answer) h (sentences @ [sentence]) =
     highlight_sentence answer (foldl (highlight_sentence answer) h sentences) sentence \<and>
   (sublist (strip sentence) h \<and> \<not> sublist (strip sentence) answer \<longrightarrow>
      highlight_sentence answer h sentence = h) \<and>
   (sublist (strip sentence) answer \<and> \<not> sublist (strip sentence) h \<longrightarrow>
      highlight_sentence answer h sentence = h)"
  by (simp add: highlight_context_def highlight_sentence_unchanged
      highlight_sentence_absent_in_working)

theorem highlight_tests_original_answer_witness:
  "highlight_context ''the quick brown fox jumps over the lazy dog''
     [''the quick brown fox jumps''] = ''**the quick brown fox jumps** over the lazy dog'' \<and>
   highlight_sentence ''the quick brown fox jumps over the lazy dog''
     ''**the quick brown fox jumps** over the lazy dog'' ''fox jumps over the lazy dog'' =
     ''**the quick brown fox jumps** over the lazy dog'' \<and>
   highlight_sentence ''the quick brown fox jumps over the lazy dog''
     ''**the quick brown fox jumps** over the lazy dog'' ''**the quick brown fox jumps**'' =
     ''**the quick brown fox jumps** over the lazy dog'' \<and>
   highlight_context ''the quick brown fox jumps over the lazy dog''
     [''the quick brown fox jumps'', ''fox jumps over the lazy dog'',
      ''**the quick brown fox jumps**''] = ''**the quick brown fox jumps** over the lazy dog''"
proof -
  let ?A = "''the quick brown fox jumps over the lazy dog''"
  let ?H = "''**the quick brown fox jumps** over the lazy dog''"
  let ?S1 = "''the quick brown fox jumps''"
  let ?S2 = "''fox jumps over the lazy dog''"
  let ?S3 = "''**the quick brown fox jumps**''"
  note ev = isspace_def is_terminator_def
  have s: "strip ?S1 = ?S1" "strip ?S2 = ?S2" "strip ?S3 = ?S3"
    by (simp_all add: strip_def ev)
  have r: "re_split ?S1 = [?S1]" "re_split ?S2 = [?S2]" "re_split ?S3 = [?S3]"
    by (simp_all add: re_split_def ev)
  have o2: "sublist ?S2 ?A" "\<not> sublist ?S2 ?H"
    unfolding str_contains_iff [symmetric] by simp_all
  have o3: "sublist ?S3 ?H" "\<not> sublist ?S3 ?A"
    unfolding str_contains_iff [symmetric] by simp_all
  have h1: "highlight_context ?A [?S1] = ?H"
    by (simp add: highlight_context_def r highlight_sentence_def s str_replace_def)
  from highlight_tests_original_answer [of ?A "[?S1]" ?S2 ?H "[]" ?S2] o2 s
  have h2: "highlight_sentence ?A ?H ?S2 = ?H"
    and c2: "highlight_context ?A ([?S1] @ [?S2]) =
      foldl (highlight_sentence ?A) (highlight_context ?A [?S1]) (re_split ?S2)"
    by simp_all
  from highlight_tests_original_answer [of ?A "[?S1, ?S2]" ?S3 ?H "[]" ?S3] o3 s
  have h3: "highlight_sentence ?A ?H ?S3 = ?H"
    and c3: "highlight_context ?A ([?S1, ?S2] @ [?S3]) =
      foldl (highlight_sentence ?A) (highlight_context ?A [?S1, ?S2]) (re_split ?S3)"
    by simp_all
  from c2 h1 h2 r have h12: "highlight_context ?A [?S1, ?S2] = ?H"
    by simp
  from c3 h12 h3 r have h123: "highlight_context ?A [?S1, ?S2, ?S3] = ?H"
    by simp
  from h1 h2 h3 h123 show ?thesis
    by simp
qed

section \<open>Claims about \<^verbatim>\<open>ask\<close> and the \<^verbatim>\<open>/ask\<close> endpoint\<close>

text \<open>
  Claim C9. In the response of the endpoint, \<open>highlighted_answer\<close> is null exactly
  when the highlighter returns the answer itself, and is the highlighter's
  output otherwise; answer and sources are those of \<^verbatim>\<open>ask\<close>.
\<close>

theorem ask_question_highlighted_answer:
  "ask env s question = Inr result \<Longrightarrow>
     \<exists>response. ask_question env s question = Inr response \<and>
       response_answer response = ask_answer result \<and>
       response_sources response = ask_sources result \<and>
       (response_highlighted_answer response = None \<longleftrightarrow>
          highlight_context (ask_answer result) (ask_contexts result) = ask_answer result) \<and>
       (response_highlighted_answer response \<noteq> None \<longrightarrow>
          response_highlighted_answer response =
            Some (highlight_context (ask_answer result) (ask_contexts result)))"
  by (simp add: ask_question_def Let_def)

theorem ask_question_highlighted_answer_witness:
  "ask stub_env stub_ready ''What is the return window?'' =
     Inr \<lparr>ask_answer = ''Returns are accepted within 30 days.'',
          ask_sources = [''policy.txt''],
          ask_contexts = [''Returns are accepted within 30 days. Refunds take 5 business days.''],
          ask_source_documents = [policy_doc]\<rparr> \<and>
   (\<exists>response. ask_question stub_env stub_ready ''What is the return window?'' = Inr response \<and>
      response_answer response = ''Returns are accepted within 30 days.'' \<and>
      response_sources response = [''policy.txt''] \<and>
      response_highlighted_answer response = Some ''**Returns are accepted within 30 days.**'')"
proof -
  let ?r = "\<lparr>ask_answer = ''Returns are accepted within 30 days.'',
          ask_sources = [''policy.txt''],
          ask_contexts = [''Returns are accepted within 30 days. Refunds take 5 business days.''],
          ask_source_documents = [policy_doc]\<rparr>"
  have a: "ask stub_env stub_ready ''What is the return window?'' = Inr ?r"
    by (simp add: ask_def stub_env_def stub_ready_def policy_doc_def source_name_def basename_def)
  have h: "highlight_context ''Returns are accepted within 30 days.''
             [''Returns are accepted within 30 days. Refunds take 5 business days.''] =
           ''**Returns are accepted within 30 days.**''"
    by (simp add: highlight_context_def re_split_def highlight_sentence_def strip_def
        str_replace_def isspace_def is_terminator_def)
  show ?thesis
    using a h ask_question_highlighted_answer [OF a] by auto
qed

text \<open>
  Claim C7. While the QA chain has not been created, \<^verbatim>\<open>ask\<close> raises its
  ``QA chain not initialized'' error for every question and returns no answer
  record; the endpoint turns it into a 500 response.
\<close>

theorem ask_not_initialized:
  "qa_chain s = None \<Longrightarrow>
     ask env s question = Inl QAChainNotInitialized \<and>
     ask_question env s question = Inl (HTTPException 500 QAChainNotInitialized)"
  by (simp add: ask_def ask_question_def)

theorem ask_not_initialized_witness:
  "qa_chain (new_pipeline None :: document list pipeline) = None \<and>
   ask stub_env (new_pipeline None) ''What is the return window?'' = Inl QAChainNotInitialized \<and>
   ask_question stub_env (new_pipeline None) ''What is the return window?'' =
     Inl (HTTPException 500 QAChainNotInitialized)"
  using ask_not_initialized [of "new_pipeline None" stub_env "''What is the return window?''"]
  by (simp add: new_pipeline_def)




section \<open>Claims about initialization\<close>

text \<open>
  Claim C6, as the code has it. Initialization takes one of two paths, chosen by
  whether the location exists and not by what it holds. When the location
  exists and no rebuild is forced, only the load is attempted, whatever the
  documents location holds: a persisted index is loaded, becomes the live index
  and the chain is created over it; a location without an index makes the load
  raise, nothing is built and the state is unchanged. When the location is
  absent or a rebuild is forced, the documents are loaded, split into chunks
  and indexed, and, when each of these steps and the save succeed, the new
  index is saved, becomes the live index and the chain is created over it. The
  counterexample is a location that exists and holds no index: the claim's
  second path is not taken and the pipeline is not ready.
\<close>

theorem initialize_two_paths:
  "(store_dir s = Some (Saved idx) \<and> \<not> force_rebuild \<longrightarrow>
      initialize_vector_store env force_rebuild s =
        (None, s\<lparr>objects := (objects s)(next_ref s \<mapsto> idx), next_ref := Suc (next_ref s),
                 vector_store := Some (next_ref s), qa_chain := Some (next_ref s)\<rparr>) \<and>
      initialize_vector_store env' force_rebuild s = initialize_vector_store env force_rebuild s) \<and>
   ((store_dir s = Some NoIndex \<or> store_dir s = Some NotADirectory) \<and> \<not> force_rebuild \<longrightarrow>
      initialize_vector_store env force_rebuild s = (Some (OtherException ''RuntimeError''), s) \<and>
      initialize_vector_store env' force_rebuild s = initialize_vector_store env force_rebuild s) \<and>
   ((store_dir s = None \<or> force_rebuild) \<and> documents_path_exists env \<and>
    directory_loader env ''**/*.txt'' = Inr txt_docs \<and>
    directory_loader env ''**/*.md'' = Inr md_docs \<and>
    text_splitter env (txt_docs @ md_docs) = Inr chunks \<and> chunks \<noteq> [] \<and>
    faiss_from_documents env chunks = Inr built \<and>
    store_dir s \<noteq> Some NotADirectory \<and> faiss_save_local env built = None \<longrightarrow>
      initialize_vector_store env force_rebuild s =
        (None, s\<lparr>objects := (objects s)(next_ref s \<mapsto> built), next_ref := Suc (next_ref s),
                 vector_store := Some (next_ref s), store_dir := Some (Saved built),
                 qa_chain := Some (next_ref s)\<rparr>))"
proof (intro conjI impI)
  assume a: "store_dir s = Some (Saved idx) \<and> \<not> force_rebuild"
  then show "initialize_vector_store env force_rebuild s =
        (None, s\<lparr>objects := (objects s)(next_ref s \<mapsto> idx), next_ref := Suc (next_ref s),
                 vector_store := Some (next_ref s), qa_chain := Some (next_ref s)\<rparr>)"
    by (simp add: initialize_load_path)
  from a show "initialize_vector_store env' force_rebuild s =
      initialize_vector_store env force_rebuild s"
    by (simp add: initialize_load_path)
next
  assume n: "(store_dir s = Some NoIndex \<or> store_dir s = Some NotADirectory) \<and> \<not> force_rebuild"
  then show "initialize_vector_store env force_rebuild s =
      (Some (OtherException ''RuntimeError''), s)"
    by (simp add: initialize_load_raises)
  from n show "initialize_vector_store env' force_rebuild s =
      initialize_vector_store env force_rebuild s"
    by (simp add: initialize_load_raises)
next
  assume b: "(store_dir s = None \<or> force_rebuild) \<and> documents_path_exists env \<and>
    directory_loader env ''**/*.txt'' = Inr txt_docs \<and>
    directory_loader env ''**/*.md'' = Inr md_docs \<and>
    text_splitter env (txt_docs @ md_docs) = Inr chunks \<and> chunks \<noteq> [] \<and>
    faiss_from_documents env chunks = Inr built \<and>
    store_dir s \<noteq> Some NotADirectory \<and> faiss_save_local env built = None"
  then have l: "load_documents env = Inr (txt_docs @ md_docs)"
    by (simp add: load_documents_def)
  from b have c: "store_dir s = None \<or> force_rebuild"
    and d: "text_splitter env (txt_docs @ md_docs) = Inr chunks" "chunks \<noteq> []"
      "faiss_from_documents env chunks = Inr built"
      "store_dir s \<noteq> Some NotADirectory" "faiss_save_local env built = None"
    by blast+
  show "initialize_vector_store env force_rebuild s =
        (None, s\<lparr>objects := (objects s)(next_ref s \<mapsto> built), next_ref := Suc (next_ref s),
                 vector_store := Some (next_ref s), store_dir := Some (Saved built),
                 qa_chain := Some (next_ref s)\<rparr>)"
    by (rule initialize_build_path [OF c l d])
qed

theorem initialize_two_paths_witness:
  "initialize_vector_store mixed_folder_env False (new_pipeline (Some (Saved [faq_doc]))) =
     (None, \<lparr>vector_store = Some 0, qa_chain = Some 0, objects = [0 \<mapsto> [faq_doc]],
             next_ref = 1, store_dir = Some (Saved [faq_doc])\<rparr>) \<and>
   initialize_vector_store empty_folder_env False (new_pipeline (Some (Saved [faq_doc]))) =
     initialize_vector_store mixed_folder_env False (new_pipeline (Some (Saved [faq_doc]))) \<and>
   initialize_vector_store mixed_folder_env False (new_pipeline (Some NotADirectory)) =
     (Some (OtherException ''RuntimeError''), new_pipeline (Some NotADirectory)) \<and>
   text_splitter mixed_folder_env ([policy_doc, blank_doc] @ [faq_doc]) =
     Inr [policy_doc, faq_doc] \<and>
   initialize_vector_store mixed_folder_env True (new_pipeline (Some (Saved [faq_doc]))) =
     (None, \<lparr>vector_store = Some 0, qa_chain = Some 0,
             objects = [0 \<mapsto> [policy_doc, faq_doc]],
             next_ref = 1, store_dir = Some (Saved [policy_doc, faq_doc])\<rparr>) \<and>
   initialize_vector_store mixed_folder_env False (new_pipeline None) =
     (None, \<lparr>vector_store = Some 0, qa_chain = Some 0,
             objects = [0 \<mapsto> [policy_doc, faq_doc]],
             next_ref = 1, store_dir = Some (Saved [policy_doc, faq_doc])\<rparr>)"
proof -
  have e: "documents_path_exists mixed_folder_env"
    "directory_loader mixed_folder_env ''**/*.txt'' = Inr [policy_doc, blank_doc]"
    "directory_loader mixed_folder_env ''**/*.md'' = Inr [faq_doc]"
    "text_splitter mixed_folder_env ([policy_doc, blank_doc] @ [faq_doc]) =
       Inr [policy_doc, faq_doc]"
    "faiss_from_documents mixed_folder_env [policy_doc, faq_doc] = Inr [policy_doc, faq_doc]"
    "faiss_save_local mixed_folder_env [policy_doc, faq_doc] = None"
    by (simp_all add: mixed_folder_env_def stub_env_def policy_doc_def blank_doc_def faq_doc_def)
  show ?thesis
    using e
      initialize_two_paths [of "new_pipeline (Some (Saved [faq_doc]))" "[faq_doc]" False
        mixed_folder_env empty_folder_env "[policy_doc, blank_doc]" "[faq_doc]"
        "[policy_doc, faq_doc]" "[policy_doc, faq_doc]"]
      initialize_two_paths [of "new_pipeline (Some NotADirectory)" "[faq_doc]" False
        mixed_folder_env empty_folder_env "[policy_doc, blank_doc]" "[faq_doc]"
        "[policy_doc, faq_doc]" "[policy_doc, faq_doc]"]
      initialize_two_paths [of "new_pipeline (Some (Saved [faq_doc]))" "[faq_doc]" True
        mixed_folder_env empty_folder_env "[policy_doc, blank_doc]" "[faq_doc]"
        "[policy_doc, faq_doc]" "[policy_doc, faq_doc]"]
      initialize_two_paths [of "new_pipeline None" "[faq_doc]" False
        mixed_folder_env empty_folder_env "[policy_doc, blank_doc]" "[faq_doc]"
        "[policy_doc, faq_doc]" "[policy_doc, faq_doc]"]
    by (simp add: new_pipeline_def)
qed

theorem initialize_not_ready_counterexample:
  "store_dir (new_pipeline (Some NoIndex) :: document list pipeline) = Some NoIndex \<and>
   fst (initialize_vector_store mixed_folder_env False (new_pipeline (Some NoIndex))) =
     Some (OtherException ''RuntimeError'') \<and>
   vector_store (snd (initialize_vector_store mixed_folder_env False (new_pipeline (Some NoIndex)))) =
     None \<and>
   qa_chain (snd (initialize_vector_store mixed_folder_env False (new_pipeline (Some NoIndex)))) =
     None \<and>
   store_dir (snd (initialize_vector_store mixed_folder_env False (new_pipeline (Some NoIndex)))) =
     Some NoIndex"
  by (simp add: initialize_vector_store_def load_vector_store_def new_pipeline_def)







section \<open>Claims about adding documents\<close>

text \<open>
  Claim C5. When one of the files given to \<^verbatim>\<open>add_documents\<close> cannot be read, the
  call raises and the state is the one before the call: the index object, the
  references and the saved index are unchanged, whatever files came before the
  unreadable one.
\<close>

theorem add_documents_unreadable_file:
  assumes "file_path \<in> set file_paths" "text_loader env file_path = Inl e"
  shows "fst (add_documents env file_paths s) \<noteq> None \<and> snd (add_documents env file_paths s) = s"
proof -
  obtain e' where "load_files env file_paths [] = Inl e'"
    using load_files_failure [OF assms] by blast
  then show ?thesis
    by (simp add: add_documents_def split: option.splits)
qed

theorem add_documents_unreadable_file_witness:
  "''documents/missing.txt'' \<in> set [''documents/faq.md'', ''documents/missing.txt''] \<and>
   text_loader stub_env ''documents/missing.txt'' = Inl ''FileNotFoundError'' \<and>
   fst (add_documents stub_env [''documents/faq.md'', ''documents/missing.txt''] stub_ready) \<noteq> None \<and>
   snd (add_documents stub_env [''documents/faq.md'', ''documents/missing.txt''] stub_ready) =
     stub_ready"
proof -
  have m: "''documents/missing.txt'' \<in> set [''documents/faq.md'', ''documents/missing.txt'']"
    by simp
  have l: "text_loader stub_env ''documents/missing.txt'' = Inl ''FileNotFoundError''"
    by (simp add: stub_env_def)
  show ?thesis
    using m l add_documents_unreadable_file [OF m l, of stub_ready] by simp
qed

end
